theory Spec2Isabelle
  imports
    Complex_Main
    "HOL-Library.AList"
    "HOL-Library.Multiset"
    "HOL-Library.Sublist"
    "HOL-Library.Char_ord"
    "HOL-Library.List_Lexorder"
    "HOL-Library.Word"
begin

section \<open>The multi-level cache manager of \<^verbatim>\<open>app/core/cache_manager.py\<close>\<close>

subsection \<open>Values, entries, counters\<close>

text \<open>
  Strings are lists of characters; nothing below depends on how many characters there are.

  A cached value is any Python object. Only one object is singled out by the code,
  \<^verbatim>\<open>None\<close>: \<^verbatim>\<open>get\<close> returns it on a miss and the decorator tests
  \<^verbatim>\<open>is not None\<close>. Every other object is a \<open>PyObj\<close>.
\<close>

datatype 'a pyval = PyNone | PyObj 'a

text \<open>
  An item of \<^verbatim>\<open>memory_cache\<close>: \<^verbatim>\<open>{'value': ..., 'expiry': ...}\<close>. The expiry is
  a reading of \<^verbatim>\<open>time.time()\<close> plus a whole number of seconds; the clock is a real number
  here (Python's double is idealised).
\<close>

record 'a cached_item =
  item_value :: "'a pyval"
  expiry :: real

record stats =
  hits :: nat
  misses :: nat
  memory_hits :: nat
  redis_hits :: nat

subsection \<open>The collaborators: the Redis client and the JSON codec\<close>

text \<open>
  A call either returns or raises. Every call into the Redis client sits in a
  \<^verbatim>\<open>try ... except Exception\<close>; the call of \<^verbatim>\<open>json.dumps\<close> in \<^verbatim>\<open>set\<close> does
  not.
\<close>

datatype 'x outcome = Raised | Returned 'x

text \<open>
  The client object is a value of type \<open>'r\<close> (the connection together with
  whatever the server holds); its methods are the fields below, each giving the outcome of
  the call and the client afterwards. \<^verbatim>\<open>get\<close> answers a string or \<^verbatim>\<open>None\<close>
  (the client is built with \<^verbatim>\<open>decode_responses=True\<close>). \<^verbatim>\<open>scan_iter\<close> is a
  generator: it yields the listed keys and then either stops or raises.
\<close>

record 'r redis =
  redis_get :: "'r \<Rightarrow> string \<Rightarrow> string option outcome \<times> 'r"
  redis_setex :: "'r \<Rightarrow> string \<Rightarrow> int \<Rightarrow> string \<Rightarrow> unit outcome \<times> 'r"
  redis_delete :: "'r \<Rightarrow> string \<Rightarrow> unit outcome \<times> 'r"
  redis_scan_iter :: "'r \<Rightarrow> string \<Rightarrow> string list \<times> unit outcome"
  redis_flushdb :: "'r \<Rightarrow> unit outcome \<times> 'r"

text \<open>
  \<^verbatim>\<open>json.dumps(value, default=str, ensure_ascii=False)\<close> has three outcomes: the payload;
  a \<^verbatim>\<open>TypeError\<close> or \<^verbatim>\<open>ValueError\<close> (\<open>NotSerializable\<close>), which \<^verbatim>\<open>set\<close> catches
  at line 96; or any other exception (\<open>DumpsRaised\<close>: a \<^verbatim>\<open>RecursionError\<close> on a value
  nested too deep, or whatever the \<^verbatim>\<open>__str__\<close> of an object raises when
  \<^verbatim>\<open>default=str\<close> is applied to it), which line 96 does not catch.
  \<^verbatim>\<open>json.loads(cached)\<close> gives the decoded value, or \<open>None\<close> when it raises; it is
  called inside \<^verbatim>\<open>try ... except Exception\<close>.
\<close>

datatype dumps_result = Payload string | NotSerializable | DumpsRaised

record 'a json =
  json_dumps :: "'a pyval \<Rightarrow> dumps_result"
  json_loads :: "string \<Rightarrow> 'a pyval option"

subsection \<open>The manager\<close>

text \<open>
  \<^verbatim>\<open>redis_client\<close> is \<open>None\<close> when the manager was built without a client.
  \<^verbatim>\<open>memory_cache\<close> is a Python dict: an association list in insertion order, whose keys
  are pairwise distinct (\<open>wf_cache\<close>).
\<close>

record ('a, 'r) CacheManager =
  redis_client :: "'r option"
  memory_cache :: "(string \<times> 'a cached_item) list"
  cache_stats :: stats

definition wf_cache :: "('a, 'r) CacheManager \<Rightarrow> bool" where
  "wf_cache s = distinct (map fst (memory_cache s))"

definition init :: "'r option \<Rightarrow> ('a, 'r) CacheManager" where
  "init client =
     \<lparr>redis_client = client, memory_cache = [],
      cache_stats = \<lparr>hits = 0, misses = 0, memory_hits = 0, redis_hits = 0\<rparr>\<rparr>"

definition ttl_config :: "(string \<times> int) list" where
  "ttl_config =
     [(''stock_data'', 300), (''technical_indicators'', 600), (''analysis_result'', 900),
      (''market_scan'', 1800), (''news'', 600), (''fundamental'', 3600),
      (''capital_flow'', 900), (''quick'', 60), (''long'', 7200)]"

text \<open>\<^verbatim>\<open>self.ttl_config.get(cache_type, 300)\<close>\<close>

definition ttl_config_get :: "string \<Rightarrow> int \<Rightarrow> int" where
  "ttl_config_get cache_type dflt =
     (case map_of ttl_config cache_type of Some t \<Rightarrow> t | None \<Rightarrow> dflt)"

text \<open>The common end of \<^verbatim>\<open>get\<close>: count a miss and return \<^verbatim>\<open>None\<close>.\<close>

definition miss :: "('a, 'r) CacheManager \<Rightarrow> 'a pyval \<times> ('a, 'r) CacheManager" where
  "miss s = (PyNone, s\<lparr>cache_stats := (cache_stats s)\<lparr>misses := misses (cache_stats s) + 1\<rparr>\<rparr>)"

text \<open>
  The second half of \<^verbatim>\<open>get\<close> (lines 61 to 80): the Redis lookup and the backfill.
  \<open>now'\<close> is the clock read at the backfill. An answer that is \<^verbatim>\<open>None\<close> or the
  empty string is falsy; a raise of the client or of \<^verbatim>\<open>json.loads\<close> is caught.
\<close>

definition get_redis ::
  "'a json \<Rightarrow> 'r redis \<Rightarrow> real \<Rightarrow> string \<Rightarrow> string \<Rightarrow> ('a, 'r) CacheManager
     \<Rightarrow> 'a pyval \<times> ('a, 'r) CacheManager" where
  "get_redis js rc now' key cache_type s =
     (case redis_client s of
        None \<Rightarrow> miss s
      | Some r \<Rightarrow>
          (case redis_get rc r key of
             (Raised, r') \<Rightarrow> miss (s\<lparr>redis_client := Some r'\<rparr>)
           | (Returned None, r') \<Rightarrow> miss (s\<lparr>redis_client := Some r'\<rparr>)
           | (Returned (Some cached), r') \<Rightarrow>
               if cached = [] then miss (s\<lparr>redis_client := Some r'\<rparr>)
               else
                 (case json_loads js cached of
                    None \<Rightarrow> miss (s\<lparr>redis_client := Some r'\<rparr>)
                  | Some v \<Rightarrow>
                      (let ttl = ttl_config_get cache_type 300
                       in (v, s\<lparr>redis_client := Some r',
                                memory_cache :=
                                  AList.update key
                                    \<lparr>item_value = v, expiry = now' + of_int (min ttl 300)\<rparr>
                                    (memory_cache s),
                                cache_stats :=
                                  (cache_stats s)
                                    \<lparr>hits := hits (cache_stats s) + 1,
                                     redis_hits := redis_hits (cache_stats s) + 1\<rparr>\<rparr>)))))"

text \<open>
  \<^verbatim>\<open>get(key, cache_type)\<close>: \<open>now\<close> is the clock read at the expiry test of line 52,
  \<open>now'\<close> the one read at line 70.
\<close>

definition get ::
  "'a json \<Rightarrow> 'r redis \<Rightarrow> real \<Rightarrow> real \<Rightarrow> string \<Rightarrow> string \<Rightarrow> ('a, 'r) CacheManager
     \<Rightarrow> 'a pyval \<times> ('a, 'r) CacheManager" where
  "get js rc now now' key cache_type s =
     (case map_of (memory_cache s) key of
        Some cached_item \<Rightarrow>
          if expiry cached_item > now
          then (item_value cached_item,
                s\<lparr>cache_stats :=
                    (cache_stats s)
                      \<lparr>hits := hits (cache_stats s) + 1,
                       memory_hits := memory_hits (cache_stats s) + 1\<rparr>\<rparr>)
          else get_redis js rc now' key cache_type
                 (s\<lparr>memory_cache := AList.delete key (memory_cache s)\<rparr>)
      | None \<Rightarrow> get_redis js rc now' key cache_type s)"

text \<open>
  \<^verbatim>\<open>set(key, value, cache_type, ttl)\<close>: the outcome of the call and the manager after
  it. The memory cache is written first. With a client, \<^verbatim>\<open>json.dumps\<close> is called next:
  a \<^verbatim>\<open>TypeError\<close> or \<^verbatim>\<open>ValueError\<close> is caught and logged, any other exception
  leaves \<^verbatim>\<open>set\<close> and reaches the caller. The outcome of \<^verbatim>\<open>setex\<close> is dropped: a raise
  is caught and logged.
\<close>

definition effective_ttl :: "string \<Rightarrow> int option \<Rightarrow> int" where
  "effective_ttl cache_type ttl =
     (case ttl of None \<Rightarrow> ttl_config_get cache_type 300 | Some t \<Rightarrow> t)"

definition set_cm ::
  "'a json \<Rightarrow> 'r redis \<Rightarrow> real \<Rightarrow> string \<Rightarrow> 'a pyval \<Rightarrow> string \<Rightarrow> int option
     \<Rightarrow> ('a, 'r) CacheManager \<Rightarrow> unit outcome \<times> ('a, 'r) CacheManager" where
  "set_cm js rc now key v cache_type ttl s =
     (let ttl = effective_ttl cache_type ttl;
          s = s\<lparr>memory_cache :=
                  AList.update key \<lparr>item_value = v, expiry = now + of_int (min ttl 300)\<rparr>
                    (memory_cache s)\<rparr>
      in case redis_client s of
           None \<Rightarrow> (Returned (), s)
         | Some r \<Rightarrow>
             (case json_dumps js v of
                DumpsRaised \<Rightarrow> (Raised, s)
              | NotSerializable \<Rightarrow> (Returned (), s)
              | Payload payload \<Rightarrow>
                  (Returned (),
                   s\<lparr>redis_client := Some (snd (redis_setex rc r key ttl payload))\<rparr>)))"

text \<open>\<^verbatim>\<open>delete(key)\<close>\<close>

definition delete_cm ::
  "'r redis \<Rightarrow> string \<Rightarrow> ('a, 'r) CacheManager \<Rightarrow> ('a, 'r) CacheManager" where
  "delete_cm rc key s =
     (let s = (if key \<in> set (map fst (memory_cache s))
               then s\<lparr>memory_cache := AList.delete key (memory_cache s)\<rparr> else s)
      in case redis_client s of
           None \<Rightarrow> s
         | Some r \<Rightarrow> s\<lparr>redis_client := Some (snd (redis_delete rc r key))\<rparr>)"

text \<open>\<^verbatim>\<open>pattern in k\<close> on strings: \<open>pattern\<close> occurs in \<open>k\<close> as a contiguous block.\<close>

fun str_in :: "string \<Rightarrow> string \<Rightarrow> bool" where
  "str_in pattern [] = (pattern = [])"
| "str_in pattern (c # cs) = (prefix pattern (c # cs) \<or> str_in pattern cs)"

text \<open>
  The loop \<^verbatim>\<open>for key in ...: self.redis_client.delete(key)\<close>: the first raise leaves the
  loop.
\<close>

fun delete_each :: "'r redis \<Rightarrow> 'r \<Rightarrow> string list \<Rightarrow> unit outcome \<times> 'r" where
  "delete_each rc r [] = (Returned (), r)"
| "delete_each rc r (key # keys) =
     (case redis_delete rc r key of
        (Raised, r') \<Rightarrow> (Raised, r')
      | (Returned u, r') \<Rightarrow> delete_each rc r' keys)"

text \<open>
  \<^verbatim>\<open>clear(pattern)\<close>. \<^verbatim>\<open>if pattern:\<close> is false for \<^verbatim>\<open>None\<close> and for the empty
  string. Whatever the Redis calls raise is caught and logged.
\<close>

definition clear ::
  "'r redis \<Rightarrow> string option \<Rightarrow> ('a, 'r) CacheManager \<Rightarrow> ('a, 'r) CacheManager" where
  "clear rc pattern s =
     (if pattern \<noteq> None \<and> pattern \<noteq> Some []
      then
        (let p = the pattern;
             keys_to_delete = filter (\<lambda>k. str_in p k) (map fst (memory_cache s));
             s = s\<lparr>memory_cache := fold AList.delete keys_to_delete (memory_cache s)\<rparr>
         in case redis_client s of
              None \<Rightarrow> s
            | Some r \<Rightarrow>
                s\<lparr>redis_client :=
                    Some (snd (delete_each rc r
                                 (fst (redis_scan_iter rc r (''*'' @ p @ ''*'')))))\<rparr>)
      else
        (let s = s\<lparr>memory_cache := []\<rparr>
         in case redis_client s of
              None \<Rightarrow> s
            | Some r \<Rightarrow> s\<lparr>redis_client := Some (snd (redis_flushdb rc r))\<rparr>))"

text \<open>
  \<^verbatim>\<open>get_stats()\<close>. The report is the counters extended by two fields. The rate is
  computed exactly here; \<open>fmt\<close> stands for the formatting \<^verbatim>\<open>f"{hit_rate:.2f}"\<close>. The
  manager is returned with the report, as the method leaves it.
\<close>

record stats_report = stats +
  hit_rate :: string
  memory_cache_size :: nat

definition hit_rate_of :: "stats \<Rightarrow> real" where
  "hit_rate_of c =
     (let total = hits c + misses c
      in if total > 0 then real (hits c) / real total * 100 else 0)"

definition get_stats ::
  "(real \<Rightarrow> string) \<Rightarrow> ('a, 'r) CacheManager \<Rightarrow> stats_report \<times> ('a, 'r) CacheManager" where
  "get_stats fmt s =
     (\<lparr>hits = hits (cache_stats s), misses = misses (cache_stats s),
       memory_hits = memory_hits (cache_stats s), redis_hits = redis_hits (cache_stats s),
       hit_rate = fmt (hit_rate_of (cache_stats s)) @ ''%'',
       memory_cache_size = length (memory_cache s)\<rparr>, s)"

text \<open>\<^verbatim>\<open>cleanup_expired()\<close>\<close>

definition cleanup_expired ::
  "real \<Rightarrow> ('a, 'r) CacheManager \<Rightarrow> nat \<times> ('a, 'r) CacheManager" where
  "cleanup_expired current_time s =
     (let expired_keys =
            map fst (filter (\<lambda>(k, v). expiry v \<le> current_time) (memory_cache s))
      in (length expired_keys,
          s\<lparr>memory_cache := fold AList.delete expired_keys (memory_cache s)\<rparr>))"

subsection \<open>Key derivation\<close>

text \<open>\<^verbatim>\<open>":".join(key_parts)\<close>\<close>

fun join :: "string \<Rightarrow> string list \<Rightarrow> string" where
  "join sep [] = []"
| "join sep [x] = x"
| "join sep (x # y # ys) = x @ sep @ join sep (y # ys)"

text \<open>
  An MD5 digest is 128 bits; \<^verbatim>\<open>hexdigest()\<close> writes it as 32 lower-case hexadecimal
  digits, the first byte of the digest first.
\<close>

definition hexdigit :: "4 word \<Rightarrow> char" where
  "hexdigit n = ''0123456789abcdef'' ! unat n"

definition hexdigest :: "128 word \<Rightarrow> string" where
  "hexdigest w = map (\<lambda>i. hexdigit (ucast (drop_bit (4 * (31 - i)) w))) [0..<32]"

text \<open>
  \<^verbatim>\<open>_generate_cache_key(prefix, *args, **kwargs)\<close>. The method reads nothing but its
  arguments. \<open>str_of\<close> is Python's \<^verbatim>\<open>str\<close> on the arguments (the f-string formats a
  value as \<^verbatim>\<open>str\<close> does), \<open>md5_digest\<close> is the digest
  \<^verbatim>\<open>hashlib.md5(key_str.encode())\<close> and \<open>prefix'\<close> is the parameter \<^verbatim>\<open>prefix\<close>.
  \<open>kwargs\<close> is a dict: its names are distinct, so \<^verbatim>\<open>sorted(kwargs.items())\<close> never
  compares two values and orders the pairs by name.
\<close>

definition key_str_of :: "('k \<Rightarrow> string) \<Rightarrow> string \<Rightarrow> 'k list \<Rightarrow> (string \<times> 'k) list \<Rightarrow> string" where
  "key_str_of str_of prefix' args kwargs =
     join '':''
       ([prefix'] @ map str_of args
          @ map (\<lambda>(k, v). k @ ''='' @ str_of v) (sort_key fst kwargs))"

definition generate_cache_key ::
  "(string \<Rightarrow> 128 word) \<Rightarrow> ('k \<Rightarrow> string) \<Rightarrow> string \<Rightarrow> 'k list \<Rightarrow> (string \<times> 'k) list
     \<Rightarrow> string" where
  "generate_cache_key md5_digest str_of prefix' args kwargs =
     (let key_str = key_str_of str_of prefix' args kwargs
      in take 16 (hexdigest (md5_digest key_str)) @ ''_'' @ take 50 key_str)"

subsection \<open>The decorator \<^verbatim>\<open>cached\<close>\<close>





subsection \<open>Sequences of calls\<close>

text \<open>
  A call of one of the manager's methods, with the clock readings it makes, and a run of
  such calls from a given manager. The run goes on after a \<^verbatim>\<open>set\<close> that raised: the
  manager is then as \<^verbatim>\<open>set\<close> left it.
\<close>

datatype 'a call =
    Get real real string string
  | Set real string "'a pyval" string "int option"
  | Delete string
  | Clear "string option"
  | GetStats
  | CleanupExpired real

fun is_get :: "'a call \<Rightarrow> bool" where
  "is_get (Get now now' key cache_type) = True"
| "is_get c = False"

fun step ::
  "'a json \<Rightarrow> 'r redis \<Rightarrow> (real \<Rightarrow> string) \<Rightarrow> 'a call \<Rightarrow> ('a, 'r) CacheManager
     \<Rightarrow> ('a, 'r) CacheManager" where
  "step js rc fmt (Get now now' key cache_type) s = snd (get js rc now now' key cache_type s)"
| "step js rc fmt (Set now key v cache_type ttl) s =
     snd (set_cm js rc now key v cache_type ttl s)"
| "step js rc fmt (Delete key) s = delete_cm rc key s"
| "step js rc fmt (Clear pattern) s = clear rc pattern s"
| "step js rc fmt GetStats s = snd (get_stats fmt s)"
| "step js rc fmt (CleanupExpired now) s = snd (cleanup_expired now s)"

definition run ::
  "'a json \<Rightarrow> 'r redis \<Rightarrow> (real \<Rightarrow> string) \<Rightarrow> 'a call list \<Rightarrow> ('a, 'r) CacheManager
     \<Rightarrow> ('a, 'r) CacheManager" where
  "run js rc fmt calls s = fold (step js rc fmt) calls s"

subsection \<open>Stand-ins for the collaborators\<close>

text \<open>
  An in-memory Redis used where a concrete client is needed: the stored keys with their
  time to live and payload, and a switch that makes every call raise. \<^verbatim>\<open>SETEX\<close>
  refuses a time to live that is not positive. \<^verbatim>\<open>MATCH\<close> patterns are globs: \<open>*\<close>
  stands for any run of characters, \<open>?\<close> for any one character, and the characters used
  below otherwise stand for themselves.
\<close>

record mem_server =
  kv :: "(string \<times> int \<times> string) list"
  failing :: bool

fun glob_match :: "string \<Rightarrow> string \<Rightarrow> bool" where
  "glob_match [] s = (s = [])"
| "glob_match (p # ps) [] = (p = CHR ''*'' \<and> glob_match ps [])"
| "glob_match (p # ps) (c # cs) =
     (if p = CHR ''*'' then glob_match ps (c # cs) \<or> glob_match (p # ps) cs
      else (p = CHR ''?'' \<or> p = c) \<and> glob_match ps cs)"

definition mem_redis :: "mem_server redis" where
  "mem_redis =
     \<lparr>redis_get = (\<lambda>r key.
        if failing r then (Raised, r)
        else (Returned (map_option snd (map_of (kv r) key)), r)),
      redis_setex = (\<lambda>r key ttl payload.
        if failing r \<or> ttl \<le> 0 then (Raised, r)
        else (Returned (), r\<lparr>kv := AList.update key (ttl, payload) (kv r)\<rparr>)),
      redis_delete = (\<lambda>r key.
        if failing r then (Raised, r)
        else (Returned (), r\<lparr>kv := AList.delete key (kv r)\<rparr>)),
      redis_scan_iter = (\<lambda>r pat.
        if failing r then ([], Raised)
        else (filter (glob_match pat) (map fst (kv r)), Returned ())),
      redis_flushdb = (\<lambda>r.
        if failing r then (Raised, r) else (Returned (), r\<lparr>kv := []\<rparr>))\<rparr>"

text \<open>
  A codec for values that are strings or \<^verbatim>\<open>None\<close>: a string is written between double
  quotes, \<^verbatim>\<open>None\<close> as \<^verbatim>\<open>null\<close>; a string holding a double quote is refused.
\<close>

definition str_json :: "string json" where
  "str_json =
     \<lparr>json_dumps = (\<lambda>v. case v of
          PyNone \<Rightarrow> Payload ''null''
        | PyObj x \<Rightarrow>
            if CHR 0x22 \<in> set x then NotSerializable
            else Payload ([CHR 0x22] @ x @ [CHR 0x22])),
      json_loads = (\<lambda>p.
        if p = ''null'' then Some PyNone
        else if 2 \<le> length p \<and> hd p = CHR 0x22 \<and> last p = CHR 0x22
               \<and> CHR 0x22 \<notin> set (butlast (tl p))
        then Some (PyObj (butlast (tl p))) else None)\<rparr>"

text \<open>
  A codec for values that are an empty list wrapped in \<open>n\<close> further lists, \<open>n\<close>
  standing for the value: past the recursion limit, here 1000, \<^verbatim>\<open>json.dumps\<close> raises
  \<^verbatim>\<open>RecursionError\<close>.
\<close>

definition nested_json :: "nat json" where
  "nested_json =
     \<lparr>json_dumps = (\<lambda>v. case v of
          PyNone \<Rightarrow> Payload ''null''
        | PyObj n \<Rightarrow>
            if 1000 \<le> n then DumpsRaised
            else Payload (replicate (Suc n) (CHR ''['') @ replicate (Suc n) (CHR '']''))),
      json_loads = (\<lambda>p.
        if p = ''null'' then Some PyNone
        else if 2 \<le> length p
               \<and> p = replicate (length p div 2) (CHR ''['')
                       @ replicate (length p div 2) (CHR '']'')
        then Some (PyObj (length p div 2 - 1)) else None)\<rparr>"

text \<open>
  Two managers used as examples: one holding \<open>k\<close> in the memory cache until time 10, one
  with an empty memory cache in front of a server that holds \<open>k\<close>.
\<close>

definition example_local :: "(string, mem_server) CacheManager" where
  "example_local =
     \<lparr>redis_client = Some \<lparr>kv = [], failing = False\<rparr>,
      memory_cache = [(''k'', \<lparr>item_value = PyObj ''v'', expiry = 10\<rparr>)],
      cache_stats = \<lparr>hits = 0, misses = 0, memory_hits = 0, redis_hits = 0\<rparr>\<rparr>"




subsection \<open>Repeated calls\<close>







text \<open>
  \<^verbatim>\<open>set\<close> lets the exception of \<^verbatim>\<open>json.dumps\<close> through: a client is configured
  and the exception is not one of the two that are caught.
\<close>

definition dumps_escapes :: "'a json \<Rightarrow> 'a pyval \<Rightarrow> ('a, 'r) CacheManager \<Rightarrow> bool" where
  "dumps_escapes js v s = (redis_client s \<noteq> None \<and> json_dumps js v = DumpsRaised)"




section \<open>Properties\<close>

subsection \<open>Set, then get\<close>

lemma default_ttl_bounds:
  "60 \<le> ttl_config_get cache_type 300 \<and> ttl_config_get cache_type 300 \<le> 7200"
  by (auto simp: ttl_config_get_def ttl_config_def split: option.splits if_splits)

lemma set_cm_memory:
  "memory_cache (snd (set_cm js rc now key v cache_type ttl s)) =
     AList.update key
       \<lparr>item_value = v, expiry = now + of_int (min (effective_ttl cache_type ttl) 300)\<rparr>
       (memory_cache s)"
  by (simp add: set_cm_def Let_def split: option.splits dumps_result.splits)

lemma set_cm_stats:
  "cache_stats (snd (set_cm js rc now key v cache_type ttl s)) = cache_stats s"
  by (simp add: set_cm_def Let_def split: option.splits dumps_result.splits)

lemma set_cm_outcome:
  "fst (set_cm js rc now key v cache_type ttl s) =
     (if dumps_escapes js v s then Raised else Returned ())"
  by (simp add: set_cm_def dumps_escapes_def Let_def split: option.splits dumps_result.splits)

lemma set_cm_client:
  "redis_client (snd (set_cm js rc now key v cache_type ttl s)) = None
   \<longleftrightarrow> redis_client s = None"
  by (simp add: set_cm_def Let_def split: option.splits dumps_result.splits)

text \<open>
  C1. After \<^verbatim>\<open>set(key, value, cache_type, ttl)\<close> at time \<open>now\<close>, a \<^verbatim>\<open>get(key, cache_type)\<close>
  on the manager as \<^verbatim>\<open>set\<close> left it, at a time \<open>t\<close> before the entry's expiry
  \<open>now + min(ttl, 300)\<close>, returns the value that was set; whether a Redis client is
  configured, what it answers and how \<^verbatim>\<open>json.dumps\<close> ends plays no role.
\<close>

theorem set_then_get:
  assumes "t < now + of_int (min (effective_ttl cache_type ttl) 300)"
  shows "fst (get js rc t t' key cache_type (snd (set_cm js rc now key v cache_type ttl s))) = v"
  using assms by (simp add: get_def set_cm_memory update_conv')

theorem set_then_get_witness:
  "(5::real) < 0 + of_int (min (effective_ttl ''quick'' None) 300)
   \<and> fst (get str_json mem_redis 5 5 ''s1'' ''quick''
            (snd (set_cm str_json mem_redis 0 ''s1'' (PyObj ''price'') ''quick'' None
               (init (Some \<lparr>kv = [], failing = False\<rparr>))))) = PyObj ''price''"
proof -
  have h: "(5::real) < 0 + of_int (min (effective_ttl ''quick'' None) 300)"
    by (simp add: effective_ttl_def ttl_config_get_def ttl_config_def)
  show ?thesis using h set_then_get [OF h] by simp
qed

text \<open>
  With the category's own time to live the entry lives at least 60 seconds, so a
  \<^verbatim>\<open>get\<close> issued less than a minute after the \<^verbatim>\<open>set\<close> is always within it.
\<close>

lemma set_then_get_default_ttl:
  assumes "t < now + 60"
  shows "fst (get js rc t t' key cache_type (snd (set_cm js rc now key v cache_type None s))) = v"
proof -
  have "(60::int) \<le> min (effective_ttl cache_type None) 300"
    using default_ttl_bounds [of cache_type] by (simp add: effective_ttl_def)
  then have "(60::real) \<le> of_int (min (effective_ttl cache_type None) 300)"
    by linarith
  with assms have "t < now + of_int (min (effective_ttl cache_type None) 300)"
    by linarith
  then show ?thesis
    by (simp add: get_def set_cm_memory update_conv')
qed

subsection \<open>The tiers of \<^verbatim>\<open>get\<close>\<close>







subsection \<open>The time to live written by \<^verbatim>\<open>set\<close>\<close>

text \<open>
  C3. For \<^verbatim>\<open>set(key, value, cache_type, ttl)\<close> the effective time to live \<open>eff\<close> is
  \<open>ttl\<close> when given, else the entry of \<open>ttl_config\<close> for the category, else 300. The
  memory cache item of \<open>key\<close> is written with expiry \<open>now + min(eff, 300)\<close>; with a client
  and a value that serialises, the client afterwards is the one \<^verbatim>\<open>setex(key, eff, payload)\<close>
  leaves; without a client, or when \<^verbatim>\<open>json.dumps\<close> raises, the client is untouched.
\<close>

theorem set_ttl:
  "(let eff = (case ttl of
                 Some t \<Rightarrow> t
               | None \<Rightarrow> (case map_of ttl_config cache_type of Some d \<Rightarrow> d | None \<Rightarrow> 300));
        s' = snd (set_cm js rc now key v cache_type ttl s)
    in map_of (memory_cache s') key =
         Some \<lparr>item_value = v, expiry = now + of_int (min eff 300)\<rparr>
       \<and> (redis_client s = Some r \<and> json_dumps js v = Payload payload \<longrightarrow>
            redis_client s' = Some (snd (redis_setex rc r key eff payload)))
       \<and> (redis_client s = None \<or> json_dumps js v = NotSerializable
            \<or> json_dumps js v = DumpsRaised \<longrightarrow>
            redis_client s' = redis_client s))"
  by (auto simp: Let_def set_cm_def effective_ttl_def ttl_config_get_def update_conv'
      split: option.splits dumps_result.splits)

theorem set_ttl_witness:
  "map_of (memory_cache (snd (set_cm str_json mem_redis 100 ''k'' (PyObj ''v'') ''fundamental'' None
       (init (Some \<lparr>kv = [], failing = False\<rparr>))))) ''k''
     = Some \<lparr>item_value = PyObj ''v'', expiry = 400\<rparr>
   \<and> redis_client (snd (set_cm str_json mem_redis 100 ''k'' (PyObj ''v'') ''fundamental'' None
       (init (Some \<lparr>kv = [], failing = False\<rparr>))))
     = Some \<lparr>kv = [(''k'', 3600, [CHR 0x22, CHR ''v'', CHR 0x22])], failing = False\<rparr>
   \<and> map_of (memory_cache (snd (set_cm str_json mem_redis 100 ''k'' (PyObj ''v'') ''no_such_type'' None
       (init None :: (string, mem_server) CacheManager)))) ''k''
     = Some \<lparr>item_value = PyObj ''v'', expiry = 400\<rparr>
   \<and> redis_client (snd (set_cm str_json mem_redis 100 ''k'' (PyObj ''v'') ''no_such_type'' None
       (init None :: (string, mem_server) CacheManager))) = None"
proof -
  let ?r = "\<lparr>kv = [], failing = False\<rparr>"
  let ?p = "[CHR 0x22, CHR ''v'', CHR 0x22]"
  have h: "redis_client (init (Some ?r) :: (string, mem_server) CacheManager) = Some ?r
      \<and> json_dumps str_json (PyObj ''v'') = Payload ?p"
    by (simp add: init_def str_json_def)
  have h': "redis_client (init None :: (string, mem_server) CacheManager) = None
      \<or> json_dumps str_json (PyObj ''v'') = NotSerializable
      \<or> json_dumps str_json (PyObj ''v'') = DumpsRaised"
    by (simp add: init_def)
  have a: "map_of (memory_cache (snd (set_cm str_json mem_redis 100 ''k'' (PyObj ''v'') ''fundamental'' None
       (init (Some ?r))))) ''k''
     = Some \<lparr>item_value = PyObj ''v'', expiry = 400\<rparr>
   \<and> redis_client (snd (set_cm str_json mem_redis 100 ''k'' (PyObj ''v'') ''fundamental'' None
       (init (Some ?r))))
     = Some \<lparr>kv = [(''k'', 3600, ?p)], failing = False\<rparr>"
    using h set_ttl [where js = str_json and rc = mem_redis and now = 100 and key = "''k''"
        and v = "PyObj ''v''" and cache_type = "''fundamental''" and ttl = None
        and s = "init (Some ?r)" and r = ?r and payload = ?p]
    by (simp add: Let_def ttl_config_def mem_redis_def)
  have b: "map_of (memory_cache (snd (set_cm str_json mem_redis 100 ''k'' (PyObj ''v'') ''no_such_type'' None
       (init None :: (string, mem_server) CacheManager)))) ''k''
     = Some \<lparr>item_value = PyObj ''v'', expiry = 400\<rparr>
   \<and> redis_client (snd (set_cm str_json mem_redis 100 ''k'' (PyObj ''v'') ''no_such_type'' None
       (init None :: (string, mem_server) CacheManager))) = None"
    using h' set_ttl [where js = str_json and rc = mem_redis and now = 100 and key = "''k''"
        and v = "PyObj ''v''" and cache_type = "''no_such_type''" and ttl = None
        and s = "init None :: (string, mem_server) CacheManager"]
    by (simp add: Let_def ttl_config_def init_def)
  from a b show ?thesis by blast
qed

subsection \<open>A Redis that raises\<close>

lemma fst_get_redis_cong:
  "redis_client s = redis_client s' \<Longrightarrow>
   fst (get_redis js rc now' key cache_type s) = fst (get_redis js rc now' key cache_type s')"
  by (auto simp: get_redis_def miss_def Let_def split: option.splits outcome.splits prod.splits)

lemma delete_cm_memory:
  "memory_cache (delete_cm rc key s) = AList.delete key (memory_cache s)"
proof (cases "key \<in> set (map fst (memory_cache s))")
  case True
  then show ?thesis by (simp add: delete_cm_def Let_def split: option.splits)
next
  case False
  then have "AList.delete key (memory_cache s) = memory_cache s" by (simp add: delete_id)
  with False show ?thesis by (simp add: delete_cm_def Let_def split: option.splits)
qed

lemma delete_cm_stats: "cache_stats (delete_cm rc key s) = cache_stats s"
  by (simp add: delete_cm_def Let_def split: option.splits)

lemma get_redis_raised:
  assumes "redis_client s = Some r" and "fst (redis_get rc r key) = Raised"
  shows "fst (get_redis js rc now' key cache_type s) = PyNone"
    and "memory_cache (snd (get_redis js rc now' key cache_type s)) = memory_cache s"
    and "cache_stats (snd (get_redis js rc now' key cache_type s)) =
           (cache_stats s)\<lparr>misses := misses (cache_stats s) + 1\<rparr>"
  using assms by (auto simp: get_redis_def miss_def split: prod.splits outcome.splits)

lemma get_redis_no_client:
  assumes "redis_client s = None"
  shows "get_redis js rc now' key cache_type s =
           (PyNone, s\<lparr>cache_stats := (cache_stats s)\<lparr>misses := misses (cache_stats s) + 1\<rparr>\<rparr>)"
  using assms by (simp add: get_redis_def miss_def)

lemma get_raised_local_only:
  assumes "redis_client s = Some r" and "fst (redis_get rc r key) = Raised"
  shows "fst (get js rc now now' key cache_type s) =
           fst (get js rc now now' key cache_type (s\<lparr>redis_client := None\<rparr>))"
    and "memory_cache (snd (get js rc now now' key cache_type s)) =
           memory_cache (snd (get js rc now now' key cache_type (s\<lparr>redis_client := None\<rparr>)))"
    and "cache_stats (snd (get js rc now now' key cache_type s)) =
           cache_stats (snd (get js rc now now' key cache_type (s\<lparr>redis_client := None\<rparr>)))"
  using assms
  by (simp_all add: get_def get_redis_raised get_redis_no_client split: option.splits)

text \<open>
  What holds when the client raises. A client is configured and its \<^verbatim>\<open>get\<close> raises:
  \<^verbatim>\<open>get\<close> returns what it returns on the same manager without a client, with the same
  memory cache and counters afterwards. \<^verbatim>\<open>set\<close> and \<^verbatim>\<open>delete\<close> leave the memory
  cache and the counters as they do without a client, whatever \<^verbatim>\<open>setex\<close> and
  \<^verbatim>\<open>delete\<close> of the client do and whatever \<^verbatim>\<open>json.dumps\<close> does; after
  \<^verbatim>\<open>delete\<close> the key is gone from the memory cache. \<^verbatim>\<open>get\<close> and \<^verbatim>\<open>delete\<close> have
  no raising outcome: each call that can raise sits in \<^verbatim>\<open>except Exception\<close>.
  \<^verbatim>\<open>set\<close> returns unless \<^verbatim>\<open>json.dumps\<close> raises an exception that line 96 does not
  catch.
\<close>

lemma remote_failure_local_only:
  assumes "redis_client s = Some r" and "fst (redis_get rc r key) = Raised"
  shows "fst (get js rc now now' key cache_type s) =
           fst (get js rc now now' key cache_type (s\<lparr>redis_client := None\<rparr>))
       \<and> memory_cache (snd (get js rc now now' key cache_type s)) =
           memory_cache (snd (get js rc now now' key cache_type (s\<lparr>redis_client := None\<rparr>)))
       \<and> cache_stats (snd (get js rc now now' key cache_type s)) =
           cache_stats (snd (get js rc now now' key cache_type (s\<lparr>redis_client := None\<rparr>)))
       \<and> memory_cache (snd (set_cm js rc now key v cache_type ttl s)) =
           memory_cache (snd (set_cm js rc now key v cache_type ttl (s\<lparr>redis_client := None\<rparr>)))
       \<and> cache_stats (snd (set_cm js rc now key v cache_type ttl s)) =
           cache_stats (snd (set_cm js rc now key v cache_type ttl (s\<lparr>redis_client := None\<rparr>)))
       \<and> memory_cache (delete_cm rc key s) =
           memory_cache (delete_cm rc key (s\<lparr>redis_client := None\<rparr>))
       \<and> cache_stats (delete_cm rc key s) =
           cache_stats (delete_cm rc key (s\<lparr>redis_client := None\<rparr>))
       \<and> map_of (memory_cache (delete_cm rc key s)) key = None
       \<and> fst (set_cm js rc now key v cache_type ttl s) =
           (if json_dumps js v = DumpsRaised then Raised else Returned ())
       \<and> fst (set_cm js rc now key v cache_type ttl (s\<lparr>redis_client := None\<rparr>)) = Returned ()"
  using assms
  by (simp add: get_raised_local_only set_cm_memory set_cm_stats delete_cm_memory
      delete_cm_stats delete_conv' set_cm_outcome dumps_escapes_def)

lemma remote_failure_local_only_example:
  "fst (get str_json mem_redis 20 21 ''k'' ''quick''
          (example_local\<lparr>redis_client := Some \<lparr>kv = [], failing = True\<rparr>\<rparr>)) = PyNone
   \<and> memory_cache (snd (get str_json mem_redis 20 21 ''k'' ''quick''
          (example_local\<lparr>redis_client := Some \<lparr>kv = [], failing = True\<rparr>\<rparr>))) = []
   \<and> misses (cache_stats (snd (get str_json mem_redis 20 21 ''k'' ''quick''
          (example_local\<lparr>redis_client := Some \<lparr>kv = [], failing = True\<rparr>\<rparr>)))) = 1
   \<and> memory_cache (snd (set_cm str_json mem_redis 20 ''k'' (PyObj [CHR 0x22]) ''quick'' None
          (example_local\<lparr>redis_client := Some \<lparr>kv = [], failing = True\<rparr>\<rparr>)))
       = [(''k'', \<lparr>item_value = PyObj [CHR 0x22], expiry = 80\<rparr>)]
   \<and> fst (set_cm str_json mem_redis 20 ''k'' (PyObj [CHR 0x22]) ''quick'' None
          (example_local\<lparr>redis_client := Some \<lparr>kv = [], failing = True\<rparr>\<rparr>)) = Returned ()
   \<and> memory_cache (delete_cm mem_redis ''k''
          (example_local\<lparr>redis_client := Some \<lparr>kv = [], failing = True\<rparr>\<rparr>)) = []"
proof -
  let ?r = "\<lparr>kv = [], failing = True\<rparr>"
  let ?s = "example_local\<lparr>redis_client := Some ?r\<rparr>"
  have h1: "redis_client ?s = Some ?r" by simp
  have h2: "fst (redis_get mem_redis ?r ''k'') = Raised" by (simp add: mem_redis_def)
  show ?thesis
    using remote_failure_local_only [OF h1 h2, where js = str_json and now = 20 and now' = 21
        and cache_type = "''quick''" and v = "PyObj [CHR 0x22]" and ttl = None]
    by (simp add: example_local_def get_def get_redis_def miss_def set_cm_def delete_cm_def
        effective_ttl_def ttl_config_get_def ttl_config_def str_json_def)
qed

text \<open>
  C4. The claim fails for \<^verbatim>\<open>set\<close>. With a client configured (here one whose every call
  raises) and a value nested past the recursion limit, \<^verbatim>\<open>json.dumps\<close> raises
  \<^verbatim>\<open>RecursionError\<close>, which is neither of the two exceptions caught at line 96: the
  exception leaves \<^verbatim>\<open>set\<close>. The same call on the manager without a client returns
  normally. The memory cache is written in both cases.
\<close>

theorem set_dumps_exception_escapes:
  "fst (set_cm nested_json mem_redis 0 ''k'' (PyObj 1000) ''quick'' None
          (init (Some \<lparr>kv = [], failing = True\<rparr>))) = Raised
   \<and> fst (set_cm nested_json mem_redis 0 ''k'' (PyObj 1000) ''quick'' None (init None))
       = Returned ()
   \<and> memory_cache (snd (set_cm nested_json mem_redis 0 ''k'' (PyObj 1000) ''quick'' None
          (init (Some \<lparr>kv = [], failing = True\<rparr>))))
       = [(''k'', \<lparr>item_value = PyObj 1000, expiry = 60\<rparr>)]
   \<and> memory_cache (snd (set_cm nested_json mem_redis 0 ''k'' (PyObj 1000) ''quick'' None
          (init None)))
       = [(''k'', \<lparr>item_value = PyObj 1000, expiry = 60\<rparr>)]"
  by (simp add: set_cm_def nested_json_def init_def effective_ttl_def ttl_config_get_def
      ttl_config_def)

subsection \<open>The expiry sweep\<close>

lemma fold_delete_filter:
  "fold AList.delete ks al = filter (\<lambda>(k, v). k \<notin> set ks) al"
proof (induction ks arbitrary: al)
  case Nil
  then show ?case by simp
next
  case (Cons k ks)
  have "fold AList.delete (k # ks) al = filter (\<lambda>(k', v). k' \<notin> set ks) (AList.delete k al)"
    by (simp add: Cons.IH)
  also have "\<dots> = filter (\<lambda>(k', v). k' \<notin> set (k # ks)) al"
    by (auto simp: AList.delete_eq intro: filter_cong)
  finally show ?case .
qed

lemma distinct_key_filter:
  assumes "distinct (map fst al)" and "(k, v) \<in> set al"
  shows "k \<in> fst ` set (filter P al) \<longleftrightarrow> P (k, v)"
  using assms by (induction al) (auto simp: image_iff)

lemma fold_delete_selected:
  assumes "distinct (map fst al)"
  shows "fold AList.delete (map fst (filter P al)) al = filter (\<lambda>x. \<not> P x) al"
proof -
  have "filter (\<lambda>(k, v). k \<notin> set (map fst (filter P al))) al = filter (\<lambda>x. \<not> P x) al"
    by (rule filter_cong [OF refl]) (use assms distinct_key_filter in fastforce)
  then show ?thesis by (simp add: fold_delete_filter)
qed


lemma cleanup_expired_memory:
  assumes "wf_cache s"
  shows "memory_cache (snd (cleanup_expired now s)) =
           filter (\<lambda>(k, v). \<not> expiry v \<le> now) (memory_cache s)"
  using assms fold_delete_selected [of "memory_cache s" "\<lambda>(k, v). expiry v \<le> now"]
  by (simp add: cleanup_expired_def wf_cache_def case_prod_unfold)

lemma cleanup_expired_count:
  "fst (cleanup_expired now s) =
     length (filter (\<lambda>(k, v). expiry v \<le> now) (memory_cache s))"
  by (simp add: cleanup_expired_def)

lemma map_of_filter_distinct:
  assumes "distinct (map fst al)"
  shows "map_of (filter (\<lambda>(k, v). P v) al) k =
           (case map_of al k of None \<Rightarrow> None | Some v \<Rightarrow> if P v then Some v else None)"
  using assms
proof (induction al)
  case Nil
  then show ?case by simp
next
  case (Cons a al)
  obtain k' v' where a: "a = (k', v')" by (cases a)
  from Cons.prems a have "map_of al k' = None"
    by (simp add: map_of_eq_None_iff)
  with Cons a show ?case by (auto split: option.splits)
qed

lemma get_after_cleanup:
  assumes "wf_cache s"
  shows "fst (get js rc now now' key cache_type (snd (cleanup_expired now s))) =
         fst (get js rc now now' key cache_type s)"
proof -
  let ?s' = "snd (cleanup_expired now s)"
  have rc': "redis_client ?s' = redis_client s" by (simp add: cleanup_expired_def)
  have m: "map_of (memory_cache ?s') key =
      (case map_of (memory_cache s) key of
         None \<Rightarrow> None | Some e \<Rightarrow> if \<not> expiry e \<le> now then Some e else None)"
    using assms map_of_filter_distinct [of "memory_cache s" "\<lambda>v. \<not> expiry v \<le> now" key]
    by (simp add: cleanup_expired_memory wf_cache_def)
  show ?thesis
  proof (cases "map_of (memory_cache s) key")
    case None
    with m show ?thesis
      by (simp add: get_def fst_get_redis_cong [of ?s' s] rc')
  next
    case (Some e)
    show ?thesis
    proof (cases "expiry e \<le> now")
      case True
      with Some m show ?thesis
        by (simp add: get_def rc'
            fst_get_redis_cong [of ?s' "s\<lparr>memory_cache := AList.delete key (memory_cache s)\<rparr>"])
    next
      case False
      with Some m show ?thesis by (simp add: get_def)
    qed
  qed
qed

lemma cleanup_expired_other_fields:
  "redis_client (snd (cleanup_expired now s)) = redis_client s"
  "cache_stats (snd (cleanup_expired now s)) = cache_stats s"
  by (simp_all add: cleanup_expired_def)

text \<open>
  C5. On a manager whose memory cache is a dict (distinct keys), \<^verbatim>\<open>cleanup_expired()\<close>
  at clock \<open>now\<close> keeps exactly the items with \<open>now < expiry\<close>, each unchanged and in
  place, and removes the items with \<open>expiry \<le> now\<close>: per key, an item is gone afterwards
  if and only if it was expired. The number returned is the number of expired items, which
  is the number by which the memory cache shrinks. The boundary is the one of \<^verbatim>\<open>get\<close>:
  a \<^verbatim>\<open>get\<close> at the same clock returns the same value before and after the sweep.
\<close>

theorem cleanup_expired_exact:
  assumes "wf_cache s"
  shows "memory_cache (snd (cleanup_expired now s)) =
           filter (\<lambda>(k, v). now < expiry v) (memory_cache s)
       \<and> map_of (memory_cache (snd (cleanup_expired now s))) key =
           (case map_of (memory_cache s) key of
              None \<Rightarrow> None
            | Some e \<Rightarrow> if expiry e \<le> now then None else Some e)
       \<and> fst (cleanup_expired now s) =
           length (filter (\<lambda>(k, v). expiry v \<le> now) (memory_cache s))
       \<and> fst (cleanup_expired now s) + length (memory_cache (snd (cleanup_expired now s))) =
           length (memory_cache s)
       \<and> fst (get js rc now now' key cache_type (snd (cleanup_expired now s))) =
           fst (get js rc now now' key cache_type s)"
proof -
  have not_le: "(\<lambda>(k, v). \<not> expiry v \<le> now) = (\<lambda>(k, v :: 'a cached_item). now < expiry v)"
    by (auto simp: fun_eq_iff)
  have m: "memory_cache (snd (cleanup_expired now s)) =
      filter (\<lambda>(k, v). now < expiry v) (memory_cache s)"
    using cleanup_expired_memory [OF assms, of now] by (simp add: not_le)
  have p: "map_of (memory_cache (snd (cleanup_expired now s))) key =
      (case map_of (memory_cache s) key of
         None \<Rightarrow> None
       | Some e \<Rightarrow> if expiry e \<le> now then None else Some e)"
    using assms map_of_filter_distinct [of "memory_cache s" "\<lambda>v. now < expiry v" key]
    by (auto simp: m wf_cache_def split: option.splits)
  have c: "fst (cleanup_expired now s) + length (memory_cache (snd (cleanup_expired now s))) =
      length (memory_cache s)"
    using sum_length_filter_compl [of "\<lambda>(k, v). expiry v \<le> now" "memory_cache s"]
    by (simp add: cleanup_expired_count cleanup_expired_memory [OF assms] case_prod_unfold)
  from m p c show ?thesis
    by (simp add: cleanup_expired_count get_after_cleanup [OF assms])
qed

theorem cleanup_expired_exact_witness:
  "wf_cache (example_local\<lparr>memory_cache :=
       [(''k'', \<lparr>item_value = PyObj ''v'', expiry = 10\<rparr>),
        (''l'', \<lparr>item_value = PyObj ''w'', expiry = 11\<rparr>)]\<rparr>)
   \<and> memory_cache (snd (cleanup_expired 10 (example_local\<lparr>memory_cache :=
       [(''k'', \<lparr>item_value = PyObj ''v'', expiry = 10\<rparr>),
        (''l'', \<lparr>item_value = PyObj ''w'', expiry = 11\<rparr>)]\<rparr>)))
       = [(''l'', \<lparr>item_value = PyObj ''w'', expiry = 11\<rparr>)]
   \<and> fst (cleanup_expired 10 (example_local\<lparr>memory_cache :=
       [(''k'', \<lparr>item_value = PyObj ''v'', expiry = 10\<rparr>),
        (''l'', \<lparr>item_value = PyObj ''w'', expiry = 11\<rparr>)]\<rparr>)) = 1"
proof -
  let ?s = "example_local\<lparr>memory_cache :=
       [(''k'', \<lparr>item_value = PyObj ''v'', expiry = 10\<rparr>),
        (''l'', \<lparr>item_value = PyObj ''w'', expiry = 11\<rparr>)]\<rparr>"
  have h: "wf_cache ?s" by (simp add: wf_cache_def)
  show ?thesis
    using h cleanup_expired_exact [OF h, of 10 "''k''" str_json mem_redis 10 "''quick''"]
    by simp
qed

subsection \<open>Clearing by pattern\<close>

lemma str_in_sublist: "str_in pattern k \<longleftrightarrow> sublist pattern k"
  by (induction k) (auto simp: sublist_Cons_right)

lemma str_in_iff: "str_in pattern k \<longleftrightarrow> (\<exists>ps ss. k = ps @ pattern @ ss)"
  by (simp add: str_in_sublist sublist_def)

lemma clear_pattern_memory:
  assumes "pattern \<noteq> []"
  shows "memory_cache (clear rc (Some pattern) s) =
           filter (\<lambda>(k, v). \<not> str_in pattern k) (memory_cache s)"
proof -
  have "filter (\<lambda>(k, v). k \<notin> set (filter (str_in pattern) (map fst (memory_cache s))))
          (memory_cache s)
        = filter (\<lambda>(k, v). \<not> str_in pattern k) (memory_cache s)"
    by (rule filter_cong [OF refl]) force
  with assms show ?thesis
    by (simp add: clear_def Let_def fold_delete_filter split: option.splits)
qed

lemma clear_pattern_remote:
  assumes "pattern \<noteq> []" and "redis_client s = Some r"
  shows "redis_client (clear rc (Some pattern) s) =
           Some (snd (delete_each rc r (fst (redis_scan_iter rc r (''*'' @ pattern @ ''*'')))))"
  using assms by (simp add: clear_def Let_def)

lemma clear_all:
  assumes "pattern = None \<or> pattern = Some []"
  shows "memory_cache (clear rc pattern s) = []"
    and "redis_client (clear rc pattern s) =
           (case redis_client s of None \<Rightarrow> None | Some r \<Rightarrow> Some (snd (redis_flushdb rc r)))"
  using assms by (auto simp: clear_def Let_def split: option.splits)

lemma clear_memory_any_client:
  "memory_cache (clear rc pattern s) = memory_cache (clear rc' pattern (s\<lparr>redis_client := c\<rparr>))"
  by (simp add: clear_def Let_def split: option.splits)

text \<open>
  C6. \<^verbatim>\<open>clear\<close> with a pattern removes from the memory cache exactly the keys that
  contain the pattern (\<open>clear_pattern_memory\<close>, \<open>str_in_iff\<close>), without a pattern it
  empties the memory cache and calls \<^verbatim>\<open>flushdb\<close> (\<open>clear_all\<close>), and the memory cache
  afterwards does not depend on the client (\<open>clear_memory_any_client\<close>). On the Redis side
  the pattern is handed over as the glob \<open>*pattern*\<close> with its characters unescaped
  (\<open>clear_pattern_remote\<close>), and a glob is not a substring test: with the key \<open>ab\<close> in
  both tiers, \<^verbatim>\<open>clear("?")\<close> keeps \<open>ab\<close> in the memory cache, where no key contains a
  question mark, and deletes it on the server, where \<open>*?*\<close> matches every non-empty key.
\<close>

theorem clear_glob_divergence:
  "\<not> str_in ''?'' ''ab''
   \<and> memory_cache (clear mem_redis (Some ''?'')
        \<lparr>redis_client = Some \<lparr>kv = [(''ab'', 60, ''1'')], failing = False\<rparr>,
         memory_cache = [(''ab'', \<lparr>item_value = PyObj ''1'', expiry = 60\<rparr>)],
         cache_stats = \<lparr>hits = 0, misses = 0, memory_hits = 0, redis_hits = 0\<rparr>\<rparr>)
       = [(''ab'', \<lparr>item_value = PyObj ''1'', expiry = 60\<rparr>)]
   \<and> redis_client (clear mem_redis (Some ''?'')
        \<lparr>redis_client = Some \<lparr>kv = [(''ab'', 60, ''1'')], failing = False\<rparr>,
         memory_cache = [(''ab'', \<lparr>item_value = PyObj ''1'', expiry = 60\<rparr>)],
         cache_stats = \<lparr>hits = 0, misses = 0, memory_hits = 0, redis_hits = 0\<rparr>\<rparr>)
       = Some \<lparr>kv = [], failing = False\<rparr>"
  by (simp add: clear_def mem_redis_def Let_def)

subsection \<open>Key derivation\<close>

lemma length_hexdigest: "length (hexdigest w) = 32"
  by (simp add: hexdigest_def)

lemma hexdigit_range: "hexdigit n \<in> set ''0123456789abcdef''"
proof -
  have "unat n < 2 ^ LENGTH(4)" by (rule unsigned_less)
  then have "unat n < length ''0123456789abcdef''" by simp
  then show ?thesis unfolding hexdigit_def by (rule nth_mem)
qed

lemma set_hexdigest: "set (hexdigest w) \<subseteq> set ''0123456789abcdef''"
  using hexdigit_range by (auto simp: hexdigest_def simp del: set_simps)

lemma filter_key_singleton:
  assumes "distinct (map fst xs)" and "x \<in> set xs"
  shows "filter (\<lambda>y. fst x = fst y) xs = [x]"
  using assms
proof (induction xs)
  case Nil
  then show ?case by simp
next
  case (Cons a xs)
  show ?case
  proof (cases "x = a")
    case True
    with Cons.prems have "\<forall>y \<in> set xs. fst a \<noteq> fst y" by (auto simp: image_iff)
    then have "filter (\<lambda>y. fst a = fst y) xs = []" by (simp add: filter_empty_conv)
    with True show ?thesis by simp
  next
    case False
    with Cons.prems have x: "x \<in> set xs" by simp
    from Cons.prems have "fst a \<notin> fst ` set xs" by simp
    with x have "fst x \<noteq> fst a" by (metis imageI)
    note x and this
    with Cons show ?thesis by simp
  qed
qed

lemma sort_key_fst_permutation:
  assumes "distinct (map fst xs)" and "mset ys = mset xs"
  shows "sort_key fst ys = sort_key fst xs"
proof (rule properties_for_sort_key [symmetric])
  show "mset (sort_key fst ys) = mset xs" using assms by simp
  show "sorted (map fst (sort_key fst ys))" by simp
next
  fix k assume k: "k \<in> set (sort_key fst ys)"
  have dy: "distinct (map fst ys)"
    using assms by (metis mset_map mset_eq_imp_distinct_iff)
  from k have ky: "k \<in> set ys" by simp
  then have kx: "k \<in> set xs" using assms by (metis mset_eq_setD)
  have "filter (\<lambda>x. fst k = fst x) (sort_key fst ys) = sort_key fst (filter (\<lambda>x. fst k = fst x) ys)"
    by (simp add: filter_sort)
  also have "\<dots> = [k]" by (simp add: filter_key_singleton [OF dy ky])
  also have "\<dots> = filter (\<lambda>x. fst k = fst x) xs" by (simp add: filter_key_singleton [OF assms(1) kx])
  finally show "filter (\<lambda>x. fst k = fst x) (sort_key fst ys) = filter (\<lambda>x. fst k = fst x) xs" .
qed

lemma key_suffix_differs:
  assumes "take 50 a \<noteq> take 50 b"
  shows "take 16 (hexdigest x) @ ''_'' @ take 50 a \<noteq> take 16 (hexdigest y) @ ''_'' @ take 50 b"
proof
  assume eq: "take 16 (hexdigest x) @ ''_'' @ take 50 a = take 16 (hexdigest y) @ ''_'' @ take 50 b"
  have "length (take 16 (hexdigest x)) = length (take 16 (hexdigest y))"
    by (simp add: length_hexdigest)
  with eq have "''_'' @ take 50 a = ''_'' @ take 50 b" by simp
  with assms show False by simp
qed


text \<open>
  C7. The key is a function of the prefix, the positional and the keyword arguments alone
  (\<open>generate_cache_key\<close> reads nothing else, given Python's \<^verbatim>\<open>str\<close> and MD5). It is
  the first 16 characters of the hexadecimal digest of the joined string, all of them
  hexadecimal digits, then an underscore, then the first 50 characters of the joined string,
  which is the prefix, the positional arguments in their order and the pairs
  \<open>name=value\<close> in the order of their names, separated by colons. Listing the keyword
  arguments (a dict: distinct names) in another order gives the same key. The order of the
  positional arguments matters: \<open>1, 2\<close> and \<open>2, 1\<close> give different keys.
\<close>

theorem generate_cache_key_properties:
  "generate_cache_key md5_digest str_of prefix' args kwargs =
     take 16 (hexdigest (md5_digest (join '':''
        ([prefix'] @ map str_of args
           @ map (\<lambda>(k, v). k @ ''='' @ str_of v) (sort_key fst kwargs)))))
     @ ''_''
     @ take 50 (join '':''
        ([prefix'] @ map str_of args
           @ map (\<lambda>(k, v). k @ ''='' @ str_of v) (sort_key fst kwargs)))
   \<and> length (take 16 (hexdigest (md5_digest (join '':''
        ([prefix'] @ map str_of args
           @ map (\<lambda>(k, v). k @ ''='' @ str_of v) (sort_key fst kwargs)))))) = 16
   \<and> set (take 16 (hexdigest (md5_digest (join '':''
        ([prefix'] @ map str_of args
           @ map (\<lambda>(k, v). k @ ''='' @ str_of v) (sort_key fst kwargs))))))
        \<subseteq> set ''0123456789abcdef''
   \<and> (distinct (map fst kwargs) \<and> mset kwargs' = mset kwargs \<longrightarrow>
        generate_cache_key md5_digest str_of prefix' args kwargs' =
        generate_cache_key md5_digest str_of prefix' args kwargs)
   \<and> generate_cache_key md5_digest (\<lambda>x. x) ''p'' [''1'', ''2''] []
        \<noteq> generate_cache_key md5_digest (\<lambda>x. x) ''p'' [''2'', ''1''] []"
proof (intro conjI impI)
  show "generate_cache_key md5_digest str_of prefix' args kwargs =
     take 16 (hexdigest (md5_digest (join '':''
        ([prefix'] @ map str_of args
           @ map (\<lambda>(k, v). k @ ''='' @ str_of v) (sort_key fst kwargs)))))
     @ ''_''
     @ take 50 (join '':''
        ([prefix'] @ map str_of args
           @ map (\<lambda>(k, v). k @ ''='' @ str_of v) (sort_key fst kwargs)))"
    by (simp add: generate_cache_key_def key_str_of_def Let_def)
next
  show "length (take 16 (hexdigest (md5_digest (join '':''
        ([prefix'] @ map str_of args
           @ map (\<lambda>(k, v). k @ ''='' @ str_of v) (sort_key fst kwargs)))))) = 16"
    by (simp add: length_hexdigest)
next
  show "set (take 16 (hexdigest (md5_digest (join '':''
        ([prefix'] @ map str_of args
           @ map (\<lambda>(k, v). k @ ''='' @ str_of v) (sort_key fst kwargs))))))
        \<subseteq> set ''0123456789abcdef''"
    using set_hexdigest set_take_subset by fast
next
  assume "distinct (map fst kwargs) \<and> mset kwargs' = mset kwargs"
  then have "sort_key fst kwargs' = sort_key fst kwargs"
    by (simp add: sort_key_fst_permutation)
  then show "generate_cache_key md5_digest str_of prefix' args kwargs' =
        generate_cache_key md5_digest str_of prefix' args kwargs"
    by (simp add: generate_cache_key_def key_str_of_def)
next
  have "take 50 (key_str_of (\<lambda>x. x) ''p'' [''1'', ''2''] [])
      \<noteq> take 50 (key_str_of (\<lambda>x. x) ''p'' [''2'', ''1''] [])"
    by (simp add: key_str_of_def)
  then show "generate_cache_key md5_digest (\<lambda>x. x) ''p'' [''1'', ''2''] []
        \<noteq> generate_cache_key md5_digest (\<lambda>x. x) ''p'' [''2'', ''1''] []"
    unfolding generate_cache_key_def Let_def by (rule key_suffix_differs)
qed

theorem generate_cache_key_properties_witness:
  "distinct (map fst [(''b'', ''x''), (''a'', ''y'')])
   \<and> mset [(''a'', ''y''), (''b'', ''x'')] = mset [(''b'', ''x''), (''a'', ''y'')]
   \<and> generate_cache_key (\<lambda>s. 0) (\<lambda>x. x) ''p'' [''1''] [(''a'', ''y''), (''b'', ''x'')] =
       generate_cache_key (\<lambda>s. 0) (\<lambda>x. x) ''p'' [''1''] [(''b'', ''x''), (''a'', ''y'')]"
proof -
  have h: "distinct (map fst [(''b'', ''x''), (''a'', ''y'')])
      \<and> mset [(''a'', ''y''), (''b'', ''x'')] = mset [(''b'', ''x''), (''a'', ''y'')]"
    by (simp add: add.commute)
  from generate_cache_key_properties [where kwargs = "[(''b'', ''x''), (''a'', ''y'')]"
      and kwargs' = "[(''a'', ''y''), (''b'', ''x'')]" and md5_digest = "\<lambda>s. 0" and str_of = "\<lambda>x. x"
      and prefix' = "''p''" and args = "[''1'']"]
  have "distinct (map fst [(''b'', ''x''), (''a'', ''y'')])
      \<and> mset [(''a'', ''y''), (''b'', ''x'')] = mset [(''b'', ''x''), (''a'', ''y'')] \<longrightarrow>
      generate_cache_key (\<lambda>s. 0) (\<lambda>x. x) ''p'' [''1''] [(''a'', ''y''), (''b'', ''x'')] =
       generate_cache_key (\<lambda>s. 0) (\<lambda>x. x) ''p'' [''1''] [(''b'', ''x''), (''a'', ''y'')]"
    by blast
  with h show ?thesis by blast
qed

subsection \<open>Statistics\<close>

lemma get_counts:
  "hits (cache_stats (snd (get js rc now now' key cache_type s)))
     + misses (cache_stats (snd (get js rc now now' key cache_type s)))
   = hits (cache_stats s) + misses (cache_stats s) + 1"
  by (auto simp: get_def get_redis_def miss_def Let_def
      split: option.splits outcome.splits prod.splits)

lemma clear_stats: "cache_stats (clear rc pattern s) = cache_stats s"
  by (simp add: clear_def Let_def split: option.splits)

lemma step_counts:
  "hits (cache_stats (step js rc fmt c s)) + misses (cache_stats (step js rc fmt c s))
   = hits (cache_stats s) + misses (cache_stats s) + (if is_get c then 1 else 0)"
  by (cases c)
    (simp_all add: get_counts set_cm_stats delete_cm_stats clear_stats get_stats_def
      cleanup_expired_other_fields)

lemma run_counts:
  "hits (cache_stats (run js rc fmt calls s)) + misses (cache_stats (run js rc fmt calls s))
   = hits (cache_stats s) + misses (cache_stats s) + length (filter is_get calls)"
  unfolding run_def
proof (induction calls arbitrary: s)
  case Nil
  then show ?case by simp
next
  case (Cons c calls)
  show ?case using Cons.IH [of "step js rc fmt c s"] step_counts [of js rc fmt c s]
    by simp
qed

text \<open>
  C8. \<^verbatim>\<open>get_stats()\<close> reports as \<open>hit_rate\<close> the formatted percentage
  \<open>hits / (hits + misses) * 100\<close> (and 0 when there was no \<^verbatim>\<open>get\<close> yet) followed by
  a percent sign, the four counters as they are, and the number of items of the memory
  cache; it returns the manager unchanged. After any run of calls from a new manager,
  \<open>hits + misses\<close> is the number of \<^verbatim>\<open>get\<close> calls in the run. The quotient is taken in
  the reals; the rounding of the claim is that of Python's double and of the two-decimal
  format \<open>fmt\<close>.
\<close>

theorem get_stats_snapshot:
  "hit_rate (fst (get_stats fmt s)) =
     fmt (if hits (cache_stats s) + misses (cache_stats s) > 0
          then real (hits (cache_stats s))
                 / (real (hits (cache_stats s)) + real (misses (cache_stats s))) * 100
          else 0) @ ''%''
   \<and> hits (fst (get_stats fmt s)) = hits (cache_stats s)
   \<and> misses (fst (get_stats fmt s)) = misses (cache_stats s)
   \<and> memory_hits (fst (get_stats fmt s)) = memory_hits (cache_stats s)
   \<and> redis_hits (fst (get_stats fmt s)) = redis_hits (cache_stats s)
   \<and> memory_cache_size (fst (get_stats fmt s)) = length (memory_cache s)
   \<and> snd (get_stats fmt s) = s
   \<and> hits (fst (get_stats fmt (run js rc fmt calls (init client))))
       + misses (fst (get_stats fmt (run js rc fmt calls (init client))))
       = length (filter is_get calls)"
  using run_counts [of js rc fmt calls "init client"]
  by (simp add: get_stats_def hit_rate_of_def Let_def init_def)

subsection \<open>Changing the value of one keyword argument\<close>









subsection \<open>The decorator\<close>














subsection \<open>A tier that supplies no value\<close>










lemma same_str_same_key:
  assumes "str_of v = str_of v'"
  shows "generate_cache_key md5_digest str_of p args [(k, v)] =
         generate_cache_key md5_digest str_of p args [(k, v')]"
  using assms by (simp add: generate_cache_key_def key_str_of_def)



subsection \<open>A cached \<^verbatim>\<open>None\<close>\<close>




subsection \<open>The memory cache stays a dict\<close>

lemma wf_init: "wf_cache (init client)"
  by (simp add: wf_cache_def init_def)

lemma wf_get:
  assumes "wf_cache s"
  shows "wf_cache (snd (get js rc now now' key cache_type s))"
  using assms
  by (auto simp: wf_cache_def get_def get_redis_def miss_def Let_def
      intro: distinct_update distinct_delete
      split: option.splits outcome.splits prod.splits)

lemma wf_set_cm:
  assumes "wf_cache s"
  shows "wf_cache (snd (set_cm js rc now key v cache_type ttl s))"
  using assms by (simp add: wf_cache_def set_cm_memory distinct_update)

lemma wf_delete_cm:
  assumes "wf_cache s"
  shows "wf_cache (delete_cm rc key s)"
  using assms by (simp add: wf_cache_def delete_cm_memory distinct_delete)

lemma distinct_fst_filter: "distinct (map fst al) \<Longrightarrow> distinct (map fst (filter P al))"
  by (simp add: distinct_map_filter)

lemma wf_clear:
  assumes "wf_cache s"
  shows "wf_cache (clear rc pattern s)"
proof (cases "pattern = None \<or> pattern = Some []")
  case True
  then show ?thesis by (simp add: wf_cache_def clear_all)
next
  case False
  then obtain p where p: "pattern = Some p" "p \<noteq> []" by auto
  with assms show ?thesis
    by (simp add: wf_cache_def clear_pattern_memory distinct_fst_filter)
qed

lemma wf_cleanup_expired:
  assumes "wf_cache s"
  shows "wf_cache (snd (cleanup_expired now s))"
  using assms cleanup_expired_memory [OF assms, of now]
  by (simp add: wf_cache_def distinct_fst_filter)

lemma wf_run:
  assumes "wf_cache s"
  shows "wf_cache (run js rc fmt calls s)"
  using assms unfolding run_def
proof (induction calls arbitrary: s)
  case Nil
  then show ?case by simp
next
  case (Cons c calls)
  have "wf_cache (step js rc fmt c s)"
    using Cons.prems
    by (cases c) (simp_all add: wf_get wf_set_cm wf_delete_cm wf_clear wf_cleanup_expired
        get_stats_def)
  then show ?case using Cons.IH by simp
qed

end
